theory Spec2Isabelle
  imports Complex_Main
begin

section \<open>Floating-point values\<close>

text \<open>
  The agent computes in C \<^verbatim>\<open>float\<close>, the IEEE-754 binary32 format.  A float is a finite
  number, an infinity or a NaN (type \<open>fl\<close>); the two signed zeros are one value, and a
  zero divisor counts as +0.  Values read from outside (sensor readings, weights, the
  configuration, distances) are finite and have type \<open>real\<close>.

  The operations come in two layers.  The first layer, \<open>fl_add\<close> to \<open>fl_sqrt\<close>, is exact
  on finite operands and follows IEEE-754 on infinities and NaN; a division by zero yields
  an infinity or a NaN.  The second layer, \<open>f32_add\<close> to \<open>expf\<close> below, puts the result
  of the first into the range of binary32: a result at or beyond the overflow threshold
  becomes an infinity, a result at or below the underflow threshold becomes zero.  Between
  the two thresholds a result is kept as the exact real: rounding to 24 significant bits
  is not modelled.
\<close>

datatype fl = Fin real | PInf | NInf | NaN

fun fl_add :: "fl \<Rightarrow> fl \<Rightarrow> fl" where
  "fl_add (Fin a) (Fin b) = Fin (a + b)"
| "fl_add NaN _ = NaN"
| "fl_add _ NaN = NaN"
| "fl_add PInf NInf = NaN"
| "fl_add NInf PInf = NaN"
| "fl_add PInf _ = PInf"
| "fl_add _ PInf = PInf"
| "fl_add NInf _ = NInf"
| "fl_add _ NInf = NInf"

fun fl_neg :: "fl \<Rightarrow> fl" where
  "fl_neg (Fin a) = Fin (- a)"
| "fl_neg PInf = NInf"
| "fl_neg NInf = PInf"
| "fl_neg NaN = NaN"

definition fl_sub :: "fl \<Rightarrow> fl \<Rightarrow> fl" where
  "fl_sub a b = fl_add a (fl_neg b)"

text \<open>The infinity with the sign of a finite non-zero factor, NaN for a zero factor.\<close>

definition inf_times :: "fl \<Rightarrow> real \<Rightarrow> fl" where
  "inf_times i a = (if a = 0 then NaN else if 0 < a then i else fl_neg i)"

fun fl_mul :: "fl \<Rightarrow> fl \<Rightarrow> fl" where
  "fl_mul (Fin a) (Fin b) = Fin (a * b)"
| "fl_mul NaN _ = NaN"
| "fl_mul _ NaN = NaN"
| "fl_mul (Fin a) PInf = inf_times PInf a"
| "fl_mul (Fin a) NInf = inf_times NInf a"
| "fl_mul PInf (Fin b) = inf_times PInf b"
| "fl_mul NInf (Fin b) = inf_times NInf b"
| "fl_mul PInf PInf = PInf"
| "fl_mul PInf NInf = NInf"
| "fl_mul NInf PInf = NInf"
| "fl_mul NInf NInf = PInf"

fun fl_div :: "fl \<Rightarrow> fl \<Rightarrow> fl" where
  "fl_div (Fin a) (Fin b) = (if b = 0 then inf_times PInf a else Fin (a / b))"
| "fl_div NaN _ = NaN"
| "fl_div _ NaN = NaN"
| "fl_div (Fin a) PInf = Fin 0"
| "fl_div (Fin a) NInf = Fin 0"
| "fl_div PInf (Fin b) = (if 0 \<le> b then PInf else NInf)"
| "fl_div NInf (Fin b) = (if 0 \<le> b then NInf else PInf)"
| "fl_div PInf PInf = NaN"
| "fl_div PInf NInf = NaN"
| "fl_div NInf PInf = NaN"
| "fl_div NInf NInf = NaN"

fun fl_sqrt :: "fl \<Rightarrow> fl" where
  "fl_sqrt (Fin a) = (if a < 0 then NaN else Fin (sqrt a))"
| "fl_sqrt PInf = PInf"
| "fl_sqrt NInf = NaN"
| "fl_sqrt NaN = NaN"

text \<open>The comparison \<^verbatim>\<open>a > b\<close>: false as soon as one side is a NaN.\<close>

fun fl_gt :: "fl \<Rightarrow> fl \<Rightarrow> bool" where
  "fl_gt (Fin a) (Fin b) = (b < a)"
| "fl_gt NaN _ = False"
| "fl_gt _ NaN = False"
| "fl_gt PInf PInf = False"
| "fl_gt PInf _ = True"
| "fl_gt _ PInf = False"
| "fl_gt NInf _ = False"
| "fl_gt _ NInf = True"

definition fl_ge :: "fl \<Rightarrow> fl \<Rightarrow> bool" where
  "fl_ge a b = (fl_gt a b \<or> (a = b \<and> a \<noteq> NaN))"

fun is_finite :: "fl \<Rightarrow> bool" where
  "is_finite (Fin a) = True"
| "is_finite _ = False"

text \<open>A float lies in the closed interval from \<open>lo\<close> to \<open>hi\<close>: it is finite and between them.\<close>

fun fl_between :: "real \<Rightarrow> real \<Rightarrow> fl \<Rightarrow> bool" where
  "fl_between lo hi (Fin a) = (lo \<le> a \<and> a \<le> hi)"
| "fl_between lo hi _ = False"

section \<open>The range of binary32\<close>

text \<open>
  With rounding to nearest, a result of magnitude \<open>2^128 - 2^103\<close> or more (the largest
  float plus half a unit in its last place) becomes an infinity, and a result of magnitude
  \<open>2^-150\<close> or less (half the smallest subnormal) becomes zero.  \<^verbatim>\<open>FLT_MIN\<close> is the smallest
  normal float.
\<close>

definition FLT_OVERFLOW :: real where
  "FLT_OVERFLOW = 2 ^ 128 - 2 ^ 103"

definition FLT_UNDERFLOW :: real where
  "FLT_UNDERFLOW = 1 / 2 ^ 150"

definition FLT_MIN :: real where
  "FLT_MIN = 1 / 2 ^ 126"

definition flush :: "real \<Rightarrow> real" where
  "flush r = (if \<bar>r\<bar> \<le> FLT_UNDERFLOW then 0 else r)"

definition fl_range :: "real \<Rightarrow> fl" where
  "fl_range r =
     (if FLT_OVERFLOW \<le> r then PInf
      else if r \<le> - FLT_OVERFLOW then NInf
      else Fin (flush r))"

fun rng :: "fl \<Rightarrow> fl" where
  "rng (Fin r) = fl_range r"
| "rng PInf = PInf"
| "rng NInf = NInf"
| "rng NaN = NaN"

text \<open>A real that a float operation returns unchanged: zero or of normal magnitude.\<close>

definition flt_normal :: "real \<Rightarrow> bool" where
  "flt_normal r = (r = 0 \<or> (FLT_MIN \<le> \<bar>r\<bar> \<and> \<bar>r\<bar> < FLT_OVERFLOW))"

text \<open>The C operators \<^verbatim>\<open>+\<close>, \<^verbatim>\<open>-\<close>, \<^verbatim>\<open>*\<close>, \<^verbatim>\<open>/\<close> on floats and the functions of \<^verbatim>\<open>math.h\<close>.\<close>

definition f32_add :: "fl \<Rightarrow> fl \<Rightarrow> fl" where
  "f32_add a b = rng (fl_add a b)"

definition f32_sub :: "fl \<Rightarrow> fl \<Rightarrow> fl" where
  "f32_sub a b = rng (fl_sub a b)"

definition f32_mul :: "fl \<Rightarrow> fl \<Rightarrow> fl" where
  "f32_mul a b = rng (fl_mul a b)"

definition f32_div :: "fl \<Rightarrow> fl \<Rightarrow> fl" where
  "f32_div a b = rng (fl_div a b)"

definition sqrtf :: "fl \<Rightarrow> fl" where
  "sqrtf a = rng (fl_sqrt a)"

fun tanhf :: "fl \<Rightarrow> fl" where
  "tanhf (Fin r) = Fin (flush (tanh r))"
| "tanhf PInf = Fin 1"
| "tanhf NInf = Fin (- 1)"
| "tanhf NaN = NaN"

fun expf :: "fl \<Rightarrow> fl" where
  "expf (Fin r) = fl_range (exp r)"
| "expf PInf = PInf"
| "expf NInf = Fin 0"
| "expf NaN = NaN"

section \<open>Faults\<close>

text \<open>
  An array access outside the array is undefined behaviour in C; the model makes it the
  result \<open>Inl OutOfBounds\<close>.
\<close>

datatype fault = OutOfBounds

section \<open>Proximity model\<close>

text \<open>
  \<^verbatim>\<open>float nca_rssi(float distance, float max_distance)\<close>, lines 74 to 77 of
  \<^verbatim>\<open>nca_agent.c\<close>.  For a distance between 0 and a positive maximum distance the
  quotient lies between 0 and 1 and the difference too, so neither operation can
  overflow, and a quotient that underflows changes the difference by less than rounding
  does; the function is stated in the first layer of the operations.
\<close>

definition nca_rssi :: "real \<Rightarrow> real \<Rightarrow> fl" where
  "nca_rssi distance max_distance =
     (if distance > max_distance then Fin 0
      else fl_sub (Fin 1) (fl_div (Fin distance) (Fin max_distance)))"

text \<open>
  \<^verbatim>\<open>int nca_get_neighbor_count(float distances[], int max_neighbors, float range_threshold)\<close>,
  lines 82 to 90.  The loop \<^verbatim>\<open>for (int i = 0; i < max_neighbors; i++)\<close> is the recursion
  \<open>neighbor_loop\<close> on the index \<open>i\<close> and the running \<open>count\<close>.  Both are C ints; they
  stay between 0 and \<open>max_neighbors\<close> (lemma \<open>neighbor_loop_bounds\<close>), so no increment
  overflows and unbounded integers model them exactly.
\<close>

function neighbor_loop :: "real list \<Rightarrow> int \<Rightarrow> real \<Rightarrow> int \<Rightarrow> int \<Rightarrow> fault + int" where
  "neighbor_loop distances max_neighbors range_threshold i count =
     (if i < max_neighbors then
        (if 0 \<le> i \<and> nat i < length distances then
           neighbor_loop distances max_neighbors range_threshold (i + 1)
             (if distances ! nat i < range_threshold then count + 1 else count)
         else Inl OutOfBounds)
      else Inr count)"
  by pat_completeness auto
termination
  by (relation "measure (\<lambda>(distances, max_neighbors, range_threshold, i, count).
        nat (max_neighbors - i))") auto

declare neighbor_loop.simps [simp del]

definition nca_get_neighbor_count :: "real list \<Rightarrow> int \<Rightarrow> real \<Rightarrow> fault + int" where
  "nca_get_neighbor_count distances max_neighbors range_threshold =
     neighbor_loop distances max_neighbors range_threshold 0 0"

section \<open>Parameters and global state\<close>

text \<open>
  The header \<^verbatim>\<open>nca_params_evo_agent.h\<close> is not part of the sources.  What
  \<^verbatim>\<open>nca_agent.c\<close> uses of it is a parameter of the model: the three sizes, the weight
  tables \<^verbatim>\<open>w1[NCA_INPUT_SIZE][NCA_HIDDEN_SIZE]\<close> and \<^verbatim>\<open>w2[NCA_HIDDEN_SIZE][NCA_OUTPUT_SIZE]\<close>
  (a list of rows), the biases \<^verbatim>\<open>b1\<close> and \<^verbatim>\<open>b2\<close>, and \<^verbatim>\<open>default_config\<close> with its
  fields \<^verbatim>\<open>noise\<close> and \<^verbatim>\<open>speed\<close>.  \<^verbatim>\<open>RAND_MAX\<close> is the macro of \<^verbatim>\<open>stdlib.h\<close>.
\<close>

record agent_config =
  noise :: real
  speed :: real

record nca_env =
  NCA_INPUT_SIZE :: nat
  NCA_HIDDEN_SIZE :: nat
  NCA_OUTPUT_SIZE :: nat
  w1 :: "real list list"
  b1 :: "real list"
  w2 :: "real list list"
  b2 :: "real list"
  default_config :: agent_config
  RAND_MAX :: int

text \<open>
  The generator behind \<^verbatim>\<open>rand()\<close> is deterministic: its state fixes the sequence of
  numbers the coming calls return.  The state is that sequence together with the number
  of calls made so far; a call returns the next number and advances the count.
\<close>

record random_source =
  outcomes :: "nat \<Rightarrow> int"
  drawn :: nat

definition rand :: "random_source \<Rightarrow> int \<times> random_source" where
  "rand r = (outcomes r (drawn r), r\<lparr>drawn := Suc (drawn r)\<rparr>)"

text \<open>
  The mutable state a call can see: the two static buffers of lines 16 and 17 and the
  state of the random source.
\<close>

record globals =
  hidden :: "fl list"
  output_buf :: "fl list"
  rand_state :: random_source

text \<open>The tables have the declared dimensions; the static buffers have the declared lengths.\<close>

definition wf_env :: "nca_env \<Rightarrow> bool" where
  "wf_env env =
     (length (w1 env) = NCA_INPUT_SIZE env \<and>
      list_all (\<lambda>row. length row = NCA_HIDDEN_SIZE env) (w1 env) \<and>
      length (b1 env) = NCA_HIDDEN_SIZE env \<and>
      length (w2 env) = NCA_HIDDEN_SIZE env \<and>
      list_all (\<lambda>row. length row = NCA_OUTPUT_SIZE env) (w2 env) \<and>
      length (b2 env) = NCA_OUTPUT_SIZE env)"

definition wf_globals :: "nca_env \<Rightarrow> globals \<Rightarrow> bool" where
  "wf_globals env g =
     (length (hidden g) = NCA_HIDDEN_SIZE env \<and> length (output_buf g) = NCA_OUTPUT_SIZE env)"

section \<open>Inference engine\<close>

text \<open>
  The inner loops of lines 26 to 28 and 35 to 37:
  \<^verbatim>\<open>for (int i = 0; i < n; i++) sum += x[i] * w[i][j];\<close>
  with the running \<^verbatim>\<open>sum\<close> as the accumulator \<open>acc\<close>, in the order of the source.  The
  product and the sum are float operations: each can overflow, and the sum of two
  infinities of opposite sign is a NaN.
\<close>

function weighted_sum ::
  "nat \<Rightarrow> fl list \<Rightarrow> real list list \<Rightarrow> nat \<Rightarrow> nat \<Rightarrow> fl \<Rightarrow> fault + fl" where
  "weighted_sum n x w j i acc =
     (if i < n then
        (if i < length x \<and> i < length w \<and> j < length (w ! i) then
           weighted_sum n x w j (Suc i) (f32_add acc (f32_mul (x ! i) (Fin (w ! i ! j))))
         else Inl OutOfBounds)
      else Inr acc)"
  by pat_completeness auto
termination
  by (relation "measure (\<lambda>(n, x, w, j, i, acc). n - i)") auto

declare weighted_sum.simps [simp del]

text \<open>
  The outer loops of lines 24 to 30 and 33 to 39:
  \<^verbatim>\<open>for (int j = 0; j < n_out; j++) { float sum = b[j]; ...; buf[j] = tanhf(sum); }\<close>
  writing the buffer \<open>buf\<close> in place.
\<close>

function nca_layer ::
  "nat \<Rightarrow> nat \<Rightarrow> fl list \<Rightarrow> real list list \<Rightarrow> real list \<Rightarrow> nat \<Rightarrow> fl list
     \<Rightarrow> fault + fl list" where
  "nca_layer n_in n_out x w b j buf =
     (if j < n_out then
        (if j < length b then
           (case weighted_sum n_in x w j 0 (Fin (b ! j)) of
              Inl e \<Rightarrow> Inl e
            | Inr acc \<Rightarrow>
                if j < length buf then nca_layer n_in n_out x w b (Suc j) (buf[j := tanhf acc])
                else Inl OutOfBounds)
         else Inl OutOfBounds)
      else Inr buf)"
  by pat_completeness auto
termination
  by (relation "measure (\<lambda>(n_in, n_out, x, w, b, j, buf). n_out - j)") auto

declare nca_layer.simps [simp del]

text \<open>Lines 42 to 44: \<^verbatim>\<open>for (int i = 0; i < n; i++) output[i] = output_buf[i];\<close>\<close>

function copy_loop :: "nat \<Rightarrow> fl list \<Rightarrow> nat \<Rightarrow> fl list \<Rightarrow> fault + fl list" where
  "copy_loop n src i dst =
     (if i < n then
        (if i < length src \<and> i < length dst then copy_loop n src (Suc i) (dst[i := src ! i])
         else Inl OutOfBounds)
      else Inr dst)"
  by pat_completeness auto
termination
  by (relation "measure (\<lambda>(n, src, i, dst). n - i)") auto

declare copy_loop.simps [simp del]

text \<open>
  \<^verbatim>\<open>void nca_forward(float input[NCA_INPUT_SIZE], float output[NCA_OUTPUT_SIZE])\<close>, lines 22
  to 45.  The call takes the globals and the caller's \<open>output\<close> array as it finds them and
  returns both as it leaves them.  The static buffers are private to the file, so neither
  argument can overlap them; \<open>input\<close> is read only by the first layer and \<open>output\<close> is
  written only by the last loop, so the two may even be the same array.  The input is a
  vector of finite floats.
\<close>

definition nca_forward ::
  "nca_env \<Rightarrow> globals \<Rightarrow> real list \<Rightarrow> fl list \<Rightarrow> fault + (globals \<times> fl list)" where
  "nca_forward env g input output =
     (case nca_layer (NCA_INPUT_SIZE env) (NCA_HIDDEN_SIZE env) (map Fin input) (w1 env)
             (b1 env) 0 (hidden g) of
        Inl e \<Rightarrow> Inl e
      | Inr h \<Rightarrow>
          (case nca_layer (NCA_HIDDEN_SIZE env) (NCA_OUTPUT_SIZE env) h (w2 env) (b2 env) 0
                  (output_buf g) of
             Inl e \<Rightarrow> Inl e
           | Inr ob \<Rightarrow>
               (case copy_loop (NCA_OUTPUT_SIZE env) ob 0 output of
                  Inl e \<Rightarrow> Inl e
                | Inr out \<Rightarrow> Inr (g\<lparr>hidden := h, output_buf := ob\<rparr>, out))))"

section \<open>Action decoder\<close>

text \<open>
  \<^verbatim>\<open>((float)rand() / RAND_MAX - 0.5f) * noise_scale\<close> for the number \<open>r\<close> that \<^verbatim>\<open>rand()\<close>
  returned.  \<^verbatim>\<open>rand()\<close> returns a number between 0 and \<^verbatim>\<open>RAND_MAX\<close>, so the quotient lies
  between 0 and 1 and the difference between -0.5 and 0.5: neither can overflow or
  underflow, and both are stated in the first layer of the operations.  The product
  with the noise scale is a float operation like any other.
\<close>

definition noise_term :: "nca_env \<Rightarrow> int \<Rightarrow> fl \<Rightarrow> fl" where
  "noise_term env r noise_scale =
     f32_mul (fl_sub (fl_div (Fin (real_of_int r)) (Fin (real_of_int (RAND_MAX env)))) (Fin 0.5))
       noise_scale"

text \<open>
  Lines 52 to 59 of \<^verbatim>\<open>nca_act\<close>: the forward pass into the local array \<^verbatim>\<open>output\<close>, the
  noise scale, and the two assignments to \<^verbatim>\<open>*dx\<close> and \<^verbatim>\<open>*dy\<close>, each with its own call of
  \<^verbatim>\<open>rand()\<close>.  The local array is not initialised in C; the forward pass overwrites all
  of it before it is read (lemma \<open>nca_forward_overwrites\<close>), and the model fills it
  with zeros.  The definition on line 51 names its third parameter \<^verbatim>\<open>float\<close>; the body
  and the declaration on line 13 call it \<^verbatim>\<open>dy\<close>, which the model follows.
\<close>

definition nca_act_unclamped ::
  "nca_env \<Rightarrow> globals \<Rightarrow> real list \<Rightarrow> fault + (globals \<times> fl \<times> fl)" where
  "nca_act_unclamped env g input =
     (case nca_forward env g input (replicate (NCA_OUTPUT_SIZE env) (Fin 0)) of
        Inl e \<Rightarrow> Inl e
      | Inr (g1, output) \<Rightarrow>
          if 1 < length output then
            (let noise_scale =
                   f32_mul (Fin (noise (default_config env)))
                     (expf (f32_mul (Fin (- noise (default_config env))) (Fin 0.01)));
                 (r1, rs1) = rand (rand_state g1);
                 dx = f32_add (f32_mul (output ! 0) (Fin (speed (default_config env))))
                        (noise_term env r1 noise_scale);
                 (r2, rs2) = rand rs1;
                 dy = f32_add (f32_mul (output ! 1) (Fin (speed (default_config env))))
                        (noise_term env r2 noise_scale)
             in Inr (g1\<lparr>rand_state := rs2\<rparr>, dx, dy))
          else Inl OutOfBounds)"

text \<open>Lines 61 to 67, \<^verbatim>\<open>// Clamp to max speed\<close>.\<close>

definition clamp_to_max_speed :: "real \<Rightarrow> fl \<Rightarrow> fl \<Rightarrow> fl \<times> fl" where
  "clamp_to_max_speed max_speed dx dy =
     (let magnitude = sqrtf (f32_add (f32_mul dx dx) (f32_mul dy dy))
      in if fl_gt magnitude (Fin max_speed)
         then (f32_mul (f32_div dx magnitude) (Fin max_speed),
               f32_mul (f32_div dy magnitude) (Fin max_speed))
         else (dx, dy))"

text \<open>\<^verbatim>\<open>void nca_act(float input[NCA_INPUT_SIZE], float *dx, float *dy)\<close>, lines 51 to 68.\<close>

definition nca_act :: "nca_env \<Rightarrow> globals \<Rightarrow> real list \<Rightarrow> fault + (globals \<times> fl \<times> fl)" where
  "nca_act env g input =
     (case nca_act_unclamped env g input of
        Inl e \<Rightarrow> Inl e
      | Inr (g', dx, dy) \<Rightarrow>
          Inr (g', clamp_to_max_speed (speed (default_config env)) dx dy))"

section \<open>The specification's noise schedule\<close>

text \<open>
  The specification's formula for the exploration-noise scale, in its own words:
  \<^verbatim>\<open>noise_scale = config.noise * exp(-config.noise * DECAY_RATE)\<close> with \<^verbatim>\<open>DECAY_RATE\<close> a
  fixed small constant, 0.01 in the code, computed in floats.  It is a function of the
  configuration alone.
\<close>

definition DECAY_RATE :: real where
  "DECAY_RATE = 0.01"

definition spec_noise_scale :: "agent_config \<Rightarrow> fl" where
  "spec_noise_scale config =
     f32_mul (Fin (noise config)) (expf (f32_mul (Fin (- noise config)) (Fin DECAY_RATE)))"

section \<open>The divisions\<close>

text \<open>
  The divisors of the divisions that a call executes, in the order of execution.
  \<^verbatim>\<open>nca_rssi\<close> divides by \<^verbatim>\<open>max_distance\<close> on line 76, which it reaches unless line 75
  has returned.  \<^verbatim>\<open>nca_act\<close> divides by \<^verbatim>\<open>RAND_MAX\<close> on lines 58 and 59, and by
  \<^verbatim>\<open>magnitude\<close> on lines 65 and 66 when the test of line 64 holds.
\<close>

definition nca_rssi_divisors :: "real \<Rightarrow> real \<Rightarrow> fl list" where
  "nca_rssi_divisors distance max_distance =
     (if distance > max_distance then [] else [Fin max_distance])"

definition clamp_divisors :: "real \<Rightarrow> fl \<Rightarrow> fl \<Rightarrow> fl list" where
  "clamp_divisors max_speed dx dy =
     (let magnitude = sqrtf (f32_add (f32_mul dx dx) (f32_mul dy dy))
      in if fl_gt magnitude (Fin max_speed) then [magnitude, magnitude] else [])"


section \<open>A small instance\<close>

text \<open>
  One input, one hidden unit and two outputs, no exploration noise and unit speed; a
  random source that returns \<open>v\<close> at every call; static buffers that hold \<open>a\<close> in every
  cell when the call begins.
\<close>

definition example_env :: nca_env where
  "example_env = \<lparr>NCA_INPUT_SIZE = 1, NCA_HIDDEN_SIZE = 1, NCA_OUTPUT_SIZE = 2,
     w1 = [[2]], b1 = [0], w2 = [[1, - 1]], b2 = [0, 0],
     default_config = \<lparr>noise = 0, speed = 1\<rparr>, RAND_MAX = 32767\<rparr>"

definition example_source :: "int \<Rightarrow> random_source" where
  "example_source v = \<lparr>outcomes = (\<lambda>n. v), drawn = 0\<rparr>"

definition example_globals :: "real \<Rightarrow> int \<Rightarrow> globals" where
  "example_globals a v =
     \<lparr>hidden = [Fin a], output_buf = [Fin a, Fin a], rand_state = example_source v\<rparr>"

text \<open>The same network with exploration noise 100.\<close>

definition noisy_env :: nca_env where
  "noisy_env = example_env\<lparr>default_config := \<lparr>noise = 100, speed = 1\<rparr>\<rparr>"

text \<open>
  Two inputs with weights 2 and -2 into one hidden unit: at the input \<open>(2^127, 2^127)\<close>
  the first product overflows to plus infinity and the second to minus infinity.
\<close>

definition overflow_env :: nca_env where
  "overflow_env = \<lparr>NCA_INPUT_SIZE = 2, NCA_HIDDEN_SIZE = 1, NCA_OUTPUT_SIZE = 2,
     w1 = [[2], [- 2]], b1 = [0], w2 = [[1, 1]], b2 = [0, 0],
     default_config = \<lparr>noise = 0, speed = 1\<rparr>, RAND_MAX = 32767\<rparr>"

definition overflow_input :: "real list" where
  "overflow_input = [2 ^ 127, 2 ^ 127]"

section \<open>Facts about the arithmetic\<close>

lemma fl_sub_Fin [simp]: "fl_sub (Fin a) (Fin b) = Fin (a - b)"
  by (simp add: fl_sub_def)

lemma fl_mul_zero: "fl_mul x (Fin 0) = (if is_finite x then Fin 0 else NaN)"
  by (cases x) (simp_all add: inf_times_def)

lemma centred_sample_finite:
  "is_finite (fl_sub (fl_div (Fin a) (Fin b)) (Fin c)) = (b \<noteq> 0)"
  by (simp add: fl_sub_def inf_times_def)

lemma fl_ge_Fin [simp]: "fl_ge (Fin a) (Fin b) = (b \<le> a)"
  by (auto simp: fl_ge_def)

subsection \<open>The range\<close>

lemma flt_order: "0 < FLT_UNDERFLOW" "FLT_UNDERFLOW < FLT_MIN" "FLT_MIN < 1" "1 < FLT_OVERFLOW"
  by (simp_all add: FLT_UNDERFLOW_def FLT_MIN_def FLT_OVERFLOW_def)

lemma flush_0 [simp]: "flush 0 = 0"
  by (simp add: flush_def)

lemma flush_abs_le: "\<bar>flush r\<bar> \<le> \<bar>r\<bar>"
  by (simp add: flush_def)

lemma flush_cases: "flush r = r \<or> flush r = 0"
  by (simp add: flush_def)

lemma flush_normal: "flt_normal r \<Longrightarrow> flush r = r"
  using flt_order(2) by (auto simp: flush_def flt_normal_def)

lemma flt_normal_0 [simp]: "flt_normal 0"
  by (simp add: flt_normal_def)

lemma flt_normal_between:
  assumes "1 / 4 \<le> r" "r \<le> 2500"
  shows "flt_normal r"
  using assms by (simp add: flt_normal_def FLT_MIN_def FLT_OVERFLOW_def)

lemma fl_range_0 [simp]: "fl_range 0 = Fin 0"
  using flt_order by (simp add: fl_range_def)

lemma fl_range_bounded: "\<bar>r\<bar> < FLT_OVERFLOW \<Longrightarrow> fl_range r = Fin (flush r)"
  by (auto simp: fl_range_def)

lemma fl_range_normal: "flt_normal r \<Longrightarrow> fl_range r = Fin r"
  using flt_order by (auto simp: fl_range_bounded flush_normal flt_normal_def)

lemma fl_range_1 [simp]: "fl_range 1 = Fin 1"
  using flt_order by (intro fl_range_normal) (simp add: flt_normal_def)

lemma fl_range_not_NaN [simp]: "fl_range r \<noteq> NaN"
  by (simp add: fl_range_def)

lemma rng_NaN_iff [simp]: "rng v = NaN \<longleftrightarrow> v = NaN"
  by (cases v) simp_all

lemma rng_finite: "is_finite (rng v) \<Longrightarrow> is_finite v"
  by (cases v) simp_all

lemma tanhf_0 [simp]: "tanhf (Fin 0) = Fin 0"
  by simp

lemma tanhf_between: "fl_between (- 1) 1 (tanhf v) \<longleftrightarrow> v \<noteq> NaN"
proof (cases v)
  case (Fin r)
  have "\<bar>flush (tanh r)\<bar> \<le> \<bar>tanh r\<bar>" by (rule flush_abs_le)
  moreover have "\<bar>tanh r\<bar> < 1" by (simp add: abs_if tanh_real_lt_1 tanh_real_gt_neg1 less_imp_le) 
  ultimately show ?thesis using Fin by auto
qed simp_all

lemma f32_mul_zero: "f32_mul x (Fin 0) = (if is_finite x then Fin 0 else NaN)"
  by (simp add: f32_mul_def fl_mul_zero)

lemma f32_mul_Fin_bounded:
  assumes "\<bar>a * b\<bar> < FLT_OVERFLOW"
  shows "\<exists>p. f32_mul (Fin a) (Fin b) = Fin p \<and> \<bar>p\<bar> \<le> \<bar>a * b\<bar>"
  using assms flush_abs_le [of "a * b"] by (simp add: f32_mul_def fl_range_bounded)

lemma f32_add_Fin_bounded:
  assumes "\<bar>a + b\<bar> < FLT_OVERFLOW"
  shows "\<exists>p. f32_add (Fin a) (Fin b) = Fin p \<and> \<bar>p\<bar> \<le> \<bar>a + b\<bar>"
  using assms flush_abs_le [of "a + b"] by (simp add: f32_add_def fl_range_bounded)

lemma f32_add_not_NaN: "acc \<noteq> NaN \<Longrightarrow> f32_add acc (Fin p) \<noteq> NaN"
  by (cases acc) (simp_all add: f32_add_def)


lemma exp_minus_one: "1 / 3 \<le> exp (- 1 :: real)" "exp (- 1 :: real) \<le> 1"
proof -
  have "exp (1::real) \<le> 3" by (rule exp_le)
  then have "1 / 3 \<le> 1 / exp (1::real)" by (intro divide_left_mono) simp_all
  then show "1 / 3 \<le> exp (- 1 :: real)" by (simp add: exp_minus inverse_eq_divide)
  show "exp (- 1 :: real) \<le> 1" by simp
qed

section \<open>Facts about the neighbour count\<close>

text \<open>
  From index \<open>i\<close> on, the loop adds to \<open>count\<close> the number of entries below the threshold
  among the entries \<open>i\<close> to \<open>max_neighbors - 1\<close>.
\<close>

lemma neighbor_loop_take:
  "0 \<le> i \<Longrightarrow> nat max_neighbors \<le> length distances \<Longrightarrow>
   neighbor_loop distances max_neighbors t i count =
     Inr (count + int (length (filter (\<lambda>d. d < t) (drop (nat i) (take (nat max_neighbors) distances)))))"
proof (induction distances max_neighbors t i count rule: neighbor_loop.induct)
  case (1 distances max_neighbors t i count)
  show ?case
  proof (cases "i < max_neighbors")
    case False
    then show ?thesis using 1 by (subst neighbor_loop.simps) simp
  next
    case True
    then have inb: "nat i < length distances" using 1(2,3) by linarith
    have d: "drop (nat i) (take (nat max_neighbors) distances) =
        distances ! nat i # drop (nat (i + 1)) (take (nat max_neighbors) distances)"
      using True 1(2) inb
      by (simp add: nat_add_distrib flip: Cons_nth_drop_Suc)
    show ?thesis
      using True inb 1 by (subst neighbor_loop.simps) (simp add: d)
  qed
qed

lemma neighbor_loop_bounds:
  "neighbor_loop distances max_neighbors t i count = Inr n \<Longrightarrow> i \<le> max_neighbors \<Longrightarrow>
   count \<le> n \<and> n \<le> count + (max_neighbors - i)"
proof (induction distances max_neighbors t i count rule: neighbor_loop.induct)
  case (1 distances max_neighbors t i count)
  show ?case
  proof (cases "i < max_neighbors")
    case False
    with "1.prems" show ?thesis by (subst (asm) neighbor_loop.simps) simp
  next
    case True
    from "1.prems"(1) True have inb: "0 \<le> i \<and> nat i < length distances" and
      rec: "neighbor_loop distances max_neighbors t (i + 1)
             (if distances ! nat i < t then count + 1 else count) = Inr n"
      by (subst (asm) neighbor_loop.simps; simp split: if_splits)+
    from "1.IH" [OF True inb rec] True show ?thesis by (auto split: if_splits)
  qed
qed

section \<open>Facts about the forward pass\<close>

subsection \<open>The loops return when every index is inside its array\<close>

lemma weighted_sum_total:
  "n \<le> length x \<Longrightarrow> n \<le> length w \<Longrightarrow> \<forall>i<n. j < length (w ! i) \<Longrightarrow>
   \<exists>s. weighted_sum n x w j i acc = Inr s"
proof (induction n x w j i acc rule: weighted_sum.induct)
  case (1 n x w j i acc)
  show ?case
  proof (cases "i < n")
    case True
    with 1 show ?thesis by (subst weighted_sum.simps) simp
  next
    case False
    then show ?thesis by (subst weighted_sum.simps) simp
  qed
qed

lemma nca_layer_length:
  "nca_layer n_in n_out x w b j buf = Inr buf' \<Longrightarrow> length buf' = length buf"
proof (induction n_in n_out x w b j buf rule: nca_layer.induct)
  case (1 n_in n_out x w b j buf)
  from "1.prems" show ?case
    by (subst (asm) nca_layer.simps) (auto split: if_splits sum.splits dest: "1.IH")
qed

lemma nca_layer_total:
  "n_in \<le> length x \<Longrightarrow> n_in \<le> length w \<Longrightarrow> \<forall>i<n_in. \<forall>j<n_out. j < length (w ! i) \<Longrightarrow>
   n_out \<le> length b \<Longrightarrow> n_out \<le> length buf \<Longrightarrow>
   \<exists>buf'. nca_layer n_in n_out x w b j buf = Inr buf'"
proof (induction n_in n_out x w b j buf rule: nca_layer.induct)
  case (1 n_in n_out x w b j buf)
  show ?case
  proof (cases "j < n_out")
    case False
    then show ?thesis by (subst nca_layer.simps) simp
  next
    case True
    then have "\<forall>i<n_in. j < length (w ! i)" using "1.prems"(3) by blast
    then obtain s where s: "weighted_sum n_in x w j 0 (Fin (b ! j)) = Inr s"
      using weighted_sum_total [OF "1.prems"(1,2)] by blast
    have "\<exists>buf'. nca_layer n_in n_out x w b (Suc j) (buf[j := tanhf s]) = Inr buf'"
      using True "1.prems" s by (intro "1.IH") auto
    then show ?thesis
      using True "1.prems" s by (subst nca_layer.simps) simp
  qed
qed

lemma copy_loop_length:
  "copy_loop n src i dst = Inr dst' \<Longrightarrow> length dst' = length dst"
proof (induction n src i dst rule: copy_loop.induct)
  case (1 n src i dst)
  from "1.prems" show ?case
    by (subst (asm) copy_loop.simps) (auto split: if_splits dest: "1.IH")
qed

lemma copy_loop_total:
  "n \<le> length src \<Longrightarrow> n \<le> length dst \<Longrightarrow> \<exists>dst'. copy_loop n src i dst = Inr dst'"
proof (induction n src i dst rule: copy_loop.induct)
  case (1 n src i dst)
  show ?case
  proof (cases "i < n")
    case True
    with 1 show ?thesis by (subst copy_loop.simps) simp
  next
    case False
    then show ?thesis by (subst copy_loop.simps) simp
  qed
qed

subsection \<open>What the weighted sum can be\<close>

text \<open>
  When the bias and the products together stay below the overflow threshold in absolute
  value, the sum is finite.  When the inputs lie between -1 and 1 and the weights are
  finite floats, no product is an infinity, and the sum may overflow but is not a NaN.
\<close>

lemma weighted_sum_bounded:
  "weighted_sum n x w j i acc = Inr v \<Longrightarrow> x = map Fin xs \<Longrightarrow> acc = Fin a \<Longrightarrow>
   \<bar>a\<bar> + (\<Sum>k = i..<n. \<bar>xs ! k * (w ! k ! j)\<bar>) < FLT_OVERFLOW \<Longrightarrow> is_finite v"
proof (induction n x w j i acc arbitrary: a rule: weighted_sum.induct)
  case (1 n x w j i acc)
  show ?case
  proof (cases "i < n")
    case False
    with "1.prems" show ?thesis by (subst (asm) weighted_sum.simps) auto
  next
    case True
    from "1.prems"(1) True have
      inb: "i < length x \<and> i < length w \<and> j < length (w ! i)" and
      rec: "weighted_sum n x w j (Suc i) (f32_add acc (f32_mul (x ! i) (Fin (w ! i ! j)))) = Inr v"
      by (subst (asm) weighted_sum.simps; simp split: if_splits)+
    have xi: "x ! i = Fin (xs ! i)" using inb "1.prems"(2) by simp
    have split: "(\<Sum>k = i..<n. \<bar>xs ! k * (w ! k ! j)\<bar>) =
        \<bar>xs ! i * (w ! i ! j)\<bar> + (\<Sum>k = Suc i..<n. \<bar>xs ! k * (w ! k ! j)\<bar>)"
      using True by (simp add: sum.atLeast_Suc_lessThan)
    have rest: "0 \<le> (\<Sum>k = Suc i..<n. \<bar>xs ! k * (w ! k ! j)\<bar>)" by (simp add: sum_nonneg)
    from "1.prems"(4) split rest have "\<bar>xs ! i * (w ! i ! j)\<bar> < FLT_OVERFLOW" by linarith
    from f32_mul_Fin_bounded [OF this] obtain p where
      p: "f32_mul (Fin (xs ! i)) (Fin (w ! i ! j)) = Fin p" "\<bar>p\<bar> \<le> \<bar>xs ! i * (w ! i ! j)\<bar>"
      by blast
    from "1.prems"(4) split rest p(2) have "\<bar>a + p\<bar> < FLT_OVERFLOW" by linarith
    from f32_add_Fin_bounded [OF this] obtain a' where
      a': "f32_add (Fin a) (Fin p) = Fin a'" "\<bar>a'\<bar> \<le> \<bar>a + p\<bar>" by blast
    have acc': "f32_add acc (f32_mul (x ! i) (Fin (w ! i ! j))) = Fin a'"
      using "1.prems"(3) xi p(1) a'(1) by simp
    have "\<bar>a'\<bar> + (\<Sum>k = Suc i..<n. \<bar>xs ! k * (w ! k ! j)\<bar>) < FLT_OVERFLOW"
      using "1.prems"(4) split p(2) a'(2) by linarith
    from "1.IH" [OF True inb rec "1.prems"(2) acc' this] show ?thesis .
  qed
qed

lemma weighted_sum_not_NaN:
  "weighted_sum n x w j i acc = Inr v \<Longrightarrow> acc \<noteq> NaN \<Longrightarrow>
   \<forall>k<n. fl_between (- 1) 1 (x ! k) \<Longrightarrow> \<forall>k<n. \<bar>w ! k ! j\<bar> < FLT_OVERFLOW \<Longrightarrow> v \<noteq> NaN"
proof (induction n x w j i acc rule: weighted_sum.induct)
  case (1 n x w j i acc)
  show ?case
  proof (cases "i < n")
    case False
    with "1.prems" show ?thesis by (subst (asm) weighted_sum.simps) simp
  next
    case True
    from "1.prems"(1) True have
      inb: "i < length x \<and> i < length w \<and> j < length (w ! i)" and
      rec: "weighted_sum n x w j (Suc i) (f32_add acc (f32_mul (x ! i) (Fin (w ! i ! j)))) = Inr v"
      by (subst (asm) weighted_sum.simps; simp split: if_splits)+
    from "1.prems"(3) True obtain t where t: "x ! i = Fin t" "\<bar>t\<bar> \<le> 1"
      by (cases "x ! i") (auto dest!: spec [of _ i])
    have "\<bar>t * (w ! i ! j)\<bar> \<le> 1 * \<bar>w ! i ! j\<bar>"
      unfolding abs_mult using t(2) by (intro mult_right_mono) simp_all
    with "1.prems"(4) True have "\<bar>t * (w ! i ! j)\<bar> < FLT_OVERFLOW" by fastforce
    from f32_mul_Fin_bounded [OF this] t(1) obtain p where
      "f32_mul (x ! i) (Fin (w ! i ! j)) = Fin p" by auto
    with f32_add_not_NaN [OF "1.prems"(2), of p]
    have "f32_add acc (f32_mul (x ! i) (Fin (w ! i ! j))) \<noteq> NaN" by simp
    from "1.IH" [OF True inb rec this "1.prems"(3,4)] show ?thesis .
  qed
qed

subsection \<open>What the loops leave in the buffers\<close>

lemma nca_layer_between:
  "nca_layer n_in n_out x w b j buf = Inr buf' \<Longrightarrow>
   \<forall>k<j. fl_between (- 1) 1 (buf ! k) \<Longrightarrow>
   \<forall>j'<n_out. \<forall>v. weighted_sum n_in x w j' 0 (Fin (b ! j')) = Inr v \<longrightarrow> v \<noteq> NaN \<Longrightarrow>
   \<forall>k<n_out. fl_between (- 1) 1 (buf' ! k)"
proof (induction n_in n_out x w b j buf rule: nca_layer.induct)
  case (1 n_in n_out x w b j buf)
  show ?case
  proof (cases "j < n_out")
    case False
    with "1.prems" show ?thesis
      by (subst (asm) nca_layer.simps) auto
  next
    case True
    from "1.prems"(1) True obtain s where
      jb: "j < length b" and s: "weighted_sum n_in x w j 0 (Fin (b ! j)) = Inr s" and
      jbuf: "j < length buf" and
      rec: "nca_layer n_in n_out x w b (Suc j) (buf[j := tanhf s]) = Inr buf'"
      by (subst (asm) nca_layer.simps) (auto split: if_splits sum.splits)
    have "s \<noteq> NaN" using "1.prems"(3) True s by blast
    then have t: "fl_between (- 1) 1 (tanhf s)" by (simp add: tanhf_between)
    have "\<forall>k<Suc j. fl_between (- 1) 1 (buf[j := tanhf s] ! k)"
      using "1.prems"(2) jbuf t by (auto simp: nth_list_update less_Suc_eq)
    from "1.IH" [OF True jb s jbuf rec this "1.prems"(3)] show ?thesis .
  qed
qed

lemma copy_loop_copies:
  "copy_loop n src i dst = Inr dst' \<Longrightarrow> \<forall>k<i. dst ! k = src ! k \<Longrightarrow>
   \<forall>k<n. dst' ! k = src ! k"
proof (induction n src i dst rule: copy_loop.induct)
  case (1 n src i dst)
  show ?case
  proof (cases "i < n")
    case False
    with "1.prems" show ?thesis
      by (subst (asm) copy_loop.simps) auto
  next
    case True
    from "1.prems"(1) True have
      inb: "i < length src \<and> i < length dst" and
      rec: "copy_loop n src (Suc i) (dst[i := src ! i]) = Inr dst'"
      by (subst (asm) copy_loop.simps; simp split: if_splits)+
    have "\<forall>k<Suc i. dst[i := src ! i] ! k = src ! k"
      using "1.prems"(2) inb by (auto simp: nth_list_update less_Suc_eq)
    with "1.IH" [OF True inb rec] show ?thesis .
  qed
qed

text \<open>
  A buffer of exactly \<open>n_out\<close> cells is overwritten completely: from index \<open>j\<close> on, the
  result depends on the cells below \<open>j\<close> only.
\<close>

lemma nca_layer_overwrites:
  "length buf = n_out \<Longrightarrow> length buf' = n_out \<Longrightarrow> \<forall>k<j. buf ! k = buf' ! k \<Longrightarrow>
   nca_layer n_in n_out x w b j buf = nca_layer n_in n_out x w b j buf'"
proof (induction n_in n_out x w b j buf arbitrary: buf' rule: nca_layer.induct)
  case (1 n_in n_out x w b j buf)
  show ?case
  proof (cases "j < n_out")
    case False
    then have "buf = buf'" using "1.prems" by (intro nth_equalityI) auto
    then show ?thesis by simp
  next
    case True
    show ?thesis
    proof (cases "j < length b")
      case False
      then show ?thesis using True
        by (subst nca_layer.simps, subst (2) nca_layer.simps) simp
    next
      case jb: True
      show ?thesis
      proof (cases "weighted_sum n_in x w j 0 (Fin (b ! j))")
        case (Inl e)
        then show ?thesis using True jb
          by (subst nca_layer.simps, subst (2) nca_layer.simps) simp
      next
        case (Inr s)
        have "nca_layer n_in n_out x w b (Suc j) (buf[j := tanhf s]) =
              nca_layer n_in n_out x w b (Suc j) (buf'[j := tanhf s])"
          using True jb Inr "1.prems"
          by (intro "1.IH") (auto simp: nth_list_update less_Suc_eq)
        then show ?thesis using True jb Inr "1.prems"
          by (subst nca_layer.simps, subst (2) nca_layer.simps) simp
      qed
    qed
  qed
qed

lemma copy_loop_overwrites:
  "length dst = n \<Longrightarrow> length dst' = n \<Longrightarrow> \<forall>k<i. dst ! k = dst' ! k \<Longrightarrow>
   copy_loop n src i dst = copy_loop n src i dst'"
proof (induction n src i dst arbitrary: dst' rule: copy_loop.induct)
  case (1 n src i dst)
  show ?case
  proof (cases "i < n")
    case False
    then have "dst = dst'" using "1.prems" by (intro nth_equalityI) auto
    then show ?thesis by simp
  next
    case True
    show ?thesis
    proof (cases "i < length src")
      case False
      then show ?thesis using True
        by (subst copy_loop.simps, subst (2) copy_loop.simps) simp
    next
      case isrc: True
      have "copy_loop n src (Suc i) (dst[i := src ! i]) =
            copy_loop n src (Suc i) (dst'[i := src ! i])"
        using True isrc "1.prems"
        by (intro "1.IH") (auto simp: nth_list_update less_Suc_eq)
      then show ?thesis using True isrc "1.prems"
        by (subst copy_loop.simps, subst (2) copy_loop.simps) simp
    qed
  qed
qed

subsection \<open>The forward pass\<close>

lemma nca_forward_total:
  assumes "wf_env env" "wf_globals env g" "length input = NCA_INPUT_SIZE env"
      and "length output = NCA_OUTPUT_SIZE env"
  shows "\<exists>g' out. nca_forward env g input output = Inr (g', out) \<and> wf_globals env g' \<and>
           rand_state g' = rand_state g \<and> length out = NCA_OUTPUT_SIZE env"
proof -
  have rows1: "\<forall>i<NCA_INPUT_SIZE env. \<forall>j<NCA_HIDDEN_SIZE env. j < length (w1 env ! i)"
    using assms(1) by (simp add: wf_env_def list_all_length)
  have rows2: "\<forall>i<NCA_HIDDEN_SIZE env. \<forall>j<NCA_OUTPUT_SIZE env. j < length (w2 env ! i)"
    using assms(1) by (simp add: wf_env_def list_all_length)
  obtain h where h: "nca_layer (NCA_INPUT_SIZE env) (NCA_HIDDEN_SIZE env) (map Fin input) (w1 env) (b1 env) 0
      (hidden g) = Inr h"
    using nca_layer_total [OF _ _ rows1, of "map Fin input" "b1 env" "hidden g" 0] assms
    by (auto simp: wf_env_def wf_globals_def)
  have lh: "length h = NCA_HIDDEN_SIZE env"
    using nca_layer_length [OF h] assms(2) by (simp add: wf_globals_def)
  obtain ob where ob: "nca_layer (NCA_HIDDEN_SIZE env) (NCA_OUTPUT_SIZE env) h (w2 env) (b2 env) 0
      (output_buf g) = Inr ob"
    using nca_layer_total [OF _ _ rows2, of h "b2 env" "output_buf g" 0] assms lh
    by (auto simp: wf_env_def wf_globals_def)
  have lob: "length ob = NCA_OUTPUT_SIZE env"
    using nca_layer_length [OF ob] assms(2) by (simp add: wf_globals_def)
  obtain out where out: "copy_loop (NCA_OUTPUT_SIZE env) ob 0 output = Inr out"
    using copy_loop_total [of "NCA_OUTPUT_SIZE env" ob "output" 0] lob assms(4) by auto
  have "length out = NCA_OUTPUT_SIZE env"
    using copy_loop_length [OF out] assms(4) by simp
  then show ?thesis
    using h ob out lh lob by (simp add: nca_forward_def wf_globals_def)
qed

lemma nca_forward_between:
  assumes "nca_forward env g input output = Inr (g', out)"
      and "\<forall>j<NCA_HIDDEN_SIZE env. \<bar>b1 env ! j\<bar> +
             (\<Sum>i = 0..<NCA_INPUT_SIZE env. \<bar>input ! i * (w1 env ! i ! j)\<bar>) < FLT_OVERFLOW"
      and "\<forall>i<NCA_HIDDEN_SIZE env. \<forall>j<NCA_OUTPUT_SIZE env. \<bar>w2 env ! i ! j\<bar> < FLT_OVERFLOW"
      and "k < NCA_OUTPUT_SIZE env"
  shows "fl_between (- 1) 1 (out ! k)"
proof -
  from assms(1) obtain h ob where
    h: "nca_layer (NCA_INPUT_SIZE env) (NCA_HIDDEN_SIZE env) (map Fin input) (w1 env) (b1 env) 0
      (hidden g) = Inr h" and
    ob: "nca_layer (NCA_HIDDEN_SIZE env) (NCA_OUTPUT_SIZE env) h (w2 env) (b2 env) 0
      (output_buf g) = Inr ob" and
    out: "copy_loop (NCA_OUTPUT_SIZE env) ob 0 output = Inr out"
    by (auto simp: nca_forward_def split: sum.splits)
  have "v \<noteq> NaN"
    if "j < NCA_HIDDEN_SIZE env"
      "weighted_sum (NCA_INPUT_SIZE env) (map Fin input) (w1 env) j 0 (Fin (b1 env ! j)) = Inr v"
    for j v
    using weighted_sum_bounded [OF that(2) refl refl] assms(2) that(1) by (cases v) auto
  with nca_layer_between [OF h]
  have hid: "\<forall>k<NCA_HIDDEN_SIZE env. fl_between (- 1) 1 (h ! k)" by simp
  have "v \<noteq> NaN"
    if "j < NCA_OUTPUT_SIZE env"
      "weighted_sum (NCA_HIDDEN_SIZE env) h (w2 env) j 0 (Fin (b2 env ! j)) = Inr v"
    for j v
    using weighted_sum_not_NaN [OF that(2) _ hid] assms(3) that(1) by simp
  with nca_layer_between [OF ob]
  have "\<forall>k<NCA_OUTPUT_SIZE env. fl_between (- 1) 1 (ob ! k)" by simp
  moreover have "\<forall>k<NCA_OUTPUT_SIZE env. out ! k = ob ! k"
    using copy_loop_copies [OF out] by simp
  ultimately show ?thesis using assms(4) by simp
qed

lemma nca_forward_wf:
  assumes "nca_forward env g input output = Inr (g', out)"
  shows "length (hidden g') = length (hidden g) \<and> length (output_buf g') = length (output_buf g) \<and>
         length out = length output"
  using assms
  by (auto simp: nca_forward_def split: sum.splits
      dest: nca_layer_length copy_loop_length)

lemma nca_forward_rand_state:
  "nca_forward env (g\<lparr>rand_state := r\<rparr>) input output =
     map_sum id (\<lambda>(g1, out). (g1\<lparr>rand_state := r\<rparr>, out)) (nca_forward env g input output)"
  by (simp add: nca_forward_def split: sum.splits)

lemma nca_forward_keeps_rand_state:
  "nca_forward env g input output = Inr (g1, out) \<Longrightarrow> rand_state g1 = rand_state g"
  by (auto simp: nca_forward_def split: sum.splits)

lemma nca_forward_overwrites:
  assumes "wf_globals env g" "wf_globals env g'"
      and "length out = NCA_OUTPUT_SIZE env" "length out' = NCA_OUTPUT_SIZE env"
  shows "nca_forward env g' input out' =
         map_sum id (\<lambda>(g1, out1). (g1\<lparr>rand_state := rand_state g'\<rparr>, out1))
           (nca_forward env g input out)"
proof -
  have h: "nca_layer (NCA_INPUT_SIZE env) (NCA_HIDDEN_SIZE env) (map Fin input) (w1 env) (b1 env) 0 (hidden g') =
        nca_layer (NCA_INPUT_SIZE env) (NCA_HIDDEN_SIZE env) (map Fin input) (w1 env) (b1 env) 0 (hidden g)"
    using assms by (intro nca_layer_overwrites) (simp_all add: wf_globals_def)
  have ob: "nca_layer (NCA_HIDDEN_SIZE env) (NCA_OUTPUT_SIZE env) h (w2 env) (b2 env) 0 (output_buf g') =
        nca_layer (NCA_HIDDEN_SIZE env) (NCA_OUTPUT_SIZE env) h (w2 env) (b2 env) 0 (output_buf g)" for h
    using assms by (intro nca_layer_overwrites) (simp_all add: wf_globals_def)
  have c: "copy_loop (NCA_OUTPUT_SIZE env) ob 0 out' = copy_loop (NCA_OUTPUT_SIZE env) ob 0 out" for ob
    using assms by (intro copy_loop_overwrites) simp_all
  show ?thesis
    by (simp add: nca_forward_def h ob c split: sum.splits)
qed

lemma example_wf: "wf_env example_env" "wf_globals example_env (example_globals a v)"
  by (simp_all add: wf_env_def wf_globals_def example_env_def example_globals_def)

lemma overflow_wf: "wf_env overflow_env"
  "wf_globals overflow_env (example_globals a v)"
  by (simp_all add: wf_env_def wf_globals_def overflow_env_def example_globals_def)

lemma example_forward:
  "nca_forward example_env (example_globals a v) [0] [c, d] =
     Inr (\<lparr>hidden = [Fin 0], output_buf = [Fin 0, Fin 0], rand_state = example_source v\<rparr>,
          [Fin 0, Fin 0])"
  by (simp add: nca_forward_def example_env_def example_globals_def nca_layer.simps
      weighted_sum.simps copy_loop.simps f32_add_def f32_mul_def)

lemma noisy_forward:
  "nca_forward noisy_env (example_globals a v) [0] [c, d] =
     Inr (\<lparr>hidden = [Fin 0], output_buf = [Fin 0, Fin 0], rand_state = example_source v\<rparr>,
          [Fin 0, Fin 0])"
  by (simp add: nca_forward_def noisy_env_def example_env_def example_globals_def nca_layer.simps
      weighted_sum.simps copy_loop.simps f32_add_def f32_mul_def)

lemma overflow_forward:
  "nca_forward overflow_env (example_globals a v) overflow_input [c, d] =
     Inr (\<lparr>hidden = [NaN], output_buf = [NaN, NaN], rand_state = example_source v\<rparr>,
          [NaN, NaN])"
  by (simp add: nca_forward_def overflow_env_def overflow_input_def example_globals_def
      nca_layer.simps weighted_sum.simps copy_loop.simps f32_add_def f32_mul_def fl_range_def
      FLT_OVERFLOW_def)

section \<open>Facts about the action decoder\<close>

lemma noise_term_zero: "noise_term env r (Fin 0) = (if RAND_MAX env \<noteq> 0 then Fin 0 else NaN)"
  unfolding noise_term_def f32_mul_zero centred_sample_finite by simp

lemma spec_noise_scale_zero: "noise config = 0 \<Longrightarrow> spec_noise_scale config = Fin 0"
  by (simp add: spec_noise_scale_def f32_mul_def)

text \<open>
  The unclamped command with the two calls of \<^verbatim>\<open>rand()\<close> resolved and the local
  \<^verbatim>\<open>noise_scale\<close> written as the specification's formula.
\<close>

lemma unclamped_eq:
  "nca_act_unclamped env g input =
     (case nca_forward env g input (replicate (NCA_OUTPUT_SIZE env) (Fin 0)) of
        Inl e \<Rightarrow> Inl e
      | Inr (g1, output) \<Rightarrow>
          if 1 < length output then
            Inr (g1\<lparr>rand_state := (rand_state g1)\<lparr>drawn := drawn (rand_state g1) + 2\<rparr>\<rparr>,
                 f32_add (f32_mul (output ! 0) (Fin (speed (default_config env))))
                   (noise_term env (outcomes (rand_state g1) (drawn (rand_state g1)))
                      (spec_noise_scale (default_config env))),
                 f32_add (f32_mul (output ! 1) (Fin (speed (default_config env))))
                   (noise_term env (outcomes (rand_state g1) (Suc (drawn (rand_state g1))))
                      (spec_noise_scale (default_config env))))
          else Inl OutOfBounds)"
  by (simp add: nca_act_unclamped_def rand_def spec_noise_scale_def DECAY_RATE_def Let_def
      split: sum.splits)

lemma unclamped_rand_state_noiseless:
  assumes "noise (default_config env) = 0"
  shows "map_sum id snd (nca_act_unclamped env (g\<lparr>rand_state := r\<rparr>) input) =
         map_sum id snd (nca_act_unclamped env g input)"
proof -
  have z: "spec_noise_scale (default_config env) = Fin 0"
    using assms by (rule spec_noise_scale_zero)
  show ?thesis
    unfolding unclamped_eq nca_forward_rand_state z noise_term_zero
    by (cases "nca_forward env g input (replicate (NCA_OUTPUT_SIZE env) (Fin 0))") auto
qed

lemma unclamped_noiseless_state:
  assumes "noise (default_config env) = 0" "wf_globals env g" "wf_globals env g'"
  shows "map_sum id snd (nca_act_unclamped env g' input) =
         map_sum id snd (nca_act_unclamped env g input)"
proof -
  have z: "spec_noise_scale (default_config env) = Fin 0"
    using assms(1) by (rule spec_noise_scale_zero)
  have l: "length (replicate (NCA_OUTPUT_SIZE env) (Fin 0)) = NCA_OUTPUT_SIZE env" by simp
  show ?thesis
    unfolding unclamped_eq nca_forward_overwrites [OF assms(2,3) l l, of input] z noise_term_zero
    by (cases "nca_forward env g input (replicate (NCA_OUTPUT_SIZE env) (Fin 0))") auto
qed

lemma nca_act_values:
  "map_sum id snd (nca_act env g input) =
   map_sum id (\<lambda>(dx, dy). clamp_to_max_speed (speed (default_config env)) dx dy)
     (map_sum id snd (nca_act_unclamped env g input))"
  by (cases "nca_act_unclamped env g input") (auto simp: nca_act_def)

lemma nca_act_returns:
  assumes "wf_env env" "wf_globals env g" "length input = NCA_INPUT_SIZE env"
      and "2 \<le> NCA_OUTPUT_SIZE env"
  shows "\<exists>g' dx dy. nca_act env g input = Inr (g', dx, dy)"
proof -
  have "length (replicate (NCA_OUTPUT_SIZE env) (Fin 0)) = NCA_OUTPUT_SIZE env" by simp
  from nca_forward_total [OF assms(1,2,3) this] obtain g1 out where
    "nca_forward env g input (replicate (NCA_OUTPUT_SIZE env) (Fin 0)) = Inr (g1, out)"
    "length out = NCA_OUTPUT_SIZE env" by blast
  then show ?thesis using assms(4)
    by (simp add: nca_act_def unclamped_eq split: prod.splits)
qed

subsection \<open>The divisions\<close>

text \<open>
  The lists of divisors hold what the code divides by: \<^verbatim>\<open>nca_rssi\<close> and the clamp are
  recovered from them, with an empty list on the paths that execute no division.
\<close>

lemma nca_rssi_divides_by:
  "nca_rssi distance max_distance =
     (case nca_rssi_divisors distance max_distance of
        [] \<Rightarrow> Fin 0
      | d # ds \<Rightarrow> fl_sub (Fin 1) (fl_div (Fin distance) d))"
  by (simp add: nca_rssi_def nca_rssi_divisors_def)

lemma clamp_divides_by:
  "clamp_to_max_speed max_speed dx dy =
     (case clamp_divisors max_speed dx dy of
        [] \<Rightarrow> (dx, dy)
      | d # ds \<Rightarrow> (f32_mul (f32_div dx d) (Fin max_speed), f32_mul (f32_div dy (hd ds)) (Fin max_speed)))"
  by (simp add: clamp_to_max_speed_def clamp_divisors_def Let_def)


subsection \<open>The clamp\<close>


lemma abs_le_magnitude: "\<bar>x\<bar> \<le> sqrt (x * x + y * y)"
proof -
  have "sqrt (x * x) \<le> sqrt (x * x + y * y)" by (intro real_sqrt_le_mono) simp
  then show ?thesis by simp
qed

lemma sqrt_normal:
  assumes "flt_normal a" "0 \<le> a"
  shows "flt_normal (sqrt a)"
proof (cases "a = 0")
  case True
  then show ?thesis by (simp add: flt_normal_def)
next
  case False
  with assms have a: "FLT_MIN \<le> a" "a < FLT_OVERFLOW" "0 < a" by (auto simp: flt_normal_def)
  have nn: "0 \<le> sqrt a" using a(3) by simp
  have "FLT_MIN \<le> sqrt a \<and> sqrt a < FLT_OVERFLOW"
  proof (cases "a \<le> 1")
    case True
    have "a * a \<le> a * 1" using True a(3) by (intro mult_left_mono) simp_all
    then have "sqrt (a * a) \<le> sqrt a" by (intro real_sqrt_le_mono) simp
    then have lo: "a \<le> sqrt a" using a(3) by simp
    have hi: "sqrt a \<le> 1" using True by simp
    from lo hi a(1) flt_order(4) show ?thesis by linarith
  next
    case False
    then have one: "1 \<le> sqrt a" by simp
    have "sqrt a * 1 \<le> sqrt a * sqrt a" using one by (intro mult_left_mono) simp_all
    then have "sqrt a \<le> a" using a(3) by simp
    with one a(2) flt_order(3) show ?thesis by linarith
  qed
  then show ?thesis unfolding flt_normal_def abs_of_nonneg [OF nn] by blast
qed

lemma magnitude_normal:
  assumes "flt_normal (x * x)" "flt_normal (y * y)" "flt_normal (x * x + y * y)"
  shows "sqrtf (f32_add (f32_mul (Fin x) (Fin x)) (f32_mul (Fin y) (Fin y))) =
         Fin (sqrt (x * x + y * y))"
proof -
  have "flt_normal (sqrt (x * x + y * y))" using assms(3) by (intro sqrt_normal) simp_all
  moreover have "\<not> x * x + y * y < 0" by (simp add: not_less)
  ultimately show ?thesis
    using assms by (simp add: sqrtf_def f32_add_def f32_mul_def fl_range_normal)
qed

lemma rescale_component:
  assumes "0 \<le> s" "s < FLT_OVERFLOW" "0 < m" "\<bar>x\<bar> \<le> m"
  shows "f32_mul (f32_div (Fin x) (Fin m)) (Fin s) = Fin (flush (flush (x / m) * s))"
    and "\<bar>flush (flush (x / m) * s)\<bar> \<le> \<bar>x / m * s\<bar>"
proof -
  have q: "\<bar>x / m\<bar> \<le> 1" using assms(3,4) by simp
  have fq: "\<bar>flush (x / m)\<bar> \<le> \<bar>x / m\<bar>" by (rule flush_abs_le)
  have "\<bar>flush (x / m) * s\<bar> \<le> \<bar>x / m\<bar> * \<bar>s\<bar>"
    unfolding abs_mult using fq by (intro mult_right_mono) simp_all
  then have p: "\<bar>flush (x / m) * s\<bar> \<le> \<bar>x / m * s\<bar>" by (simp add: abs_mult)
  have "\<bar>x / m\<bar> * \<bar>s\<bar> \<le> 1 * \<bar>s\<bar>" using q by (intro mult_right_mono) simp_all
  then have "\<bar>x / m * s\<bar> \<le> s" using assms(1) by (simp add: abs_mult)
  with p have small: "\<bar>flush (x / m) * s\<bar> < FLT_OVERFLOW" using assms(2) by linarith
  have "\<bar>x / m\<bar> < FLT_OVERFLOW" using q flt_order(4) by linarith
  then have "f32_div (Fin x) (Fin m) = Fin (flush (x / m))"
    using assms(3) by (simp add: f32_div_def fl_range_bounded)
  then show "f32_mul (f32_div (Fin x) (Fin m)) (Fin s) = Fin (flush (flush (x / m) * s))"
    using small by (simp add: f32_mul_def fl_range_bounded)
  show "\<bar>flush (flush (x / m) * s)\<bar> \<le> \<bar>x / m * s\<bar>"
    using flush_abs_le [of "flush (x / m) * s"] p by linarith
qed

lemma clamp_normal:
  assumes "0 \<le> s" "s < FLT_OVERFLOW"
      and "flt_normal (x0 * x0)" "flt_normal (y0 * y0)" "flt_normal (x0 * x0 + y0 * y0)"
  shows "clamp_to_max_speed s (Fin x0) (Fin y0) =
     (if s < sqrt (x0 * x0 + y0 * y0)
      then (Fin (flush (flush (x0 / sqrt (x0 * x0 + y0 * y0)) * s)),
            Fin (flush (flush (y0 / sqrt (x0 * x0 + y0 * y0)) * s)))
      else (Fin x0, Fin y0))"
proof (cases "s < sqrt (x0 * x0 + y0 * y0)")
  case True
  then have pos: "0 < sqrt (x0 * x0 + y0 * y0)" using assms(1) by linarith
  have y: "\<bar>y0\<bar> \<le> sqrt (x0 * x0 + y0 * y0)"
    using abs_le_magnitude [of y0 x0] by (simp add: add.commute)
  show ?thesis
    using True
    unfolding clamp_to_max_speed_def magnitude_normal [OF assms(3,4,5)] Let_def
      rescale_component(1) [OF assms(1,2) pos abs_le_magnitude]
      rescale_component(1) [OF assms(1,2) pos y]
    by simp
next
  case False
  then show ?thesis
    unfolding clamp_to_max_speed_def magnitude_normal [OF assms(3,4,5)] Let_def by simp
qed


text \<open>
  Outside that range the clamp behaves differently.  At a speed limit of \<open>2 ^ 100\<close> a
  command of that size in both components has squares that overflow: the magnitude is
  infinite, the quotients are zero, and the command becomes (0, 0).  At a speed limit of
  \<open>1 / 2 ^ 80\<close> a command of that size in both components has squares that underflow: the
  magnitude is zero, the guard fails, and the command is left as it is although its norm
  exceeds the limit.
\<close>

lemma clamp_overflow_example:
  "clamp_to_max_speed (2 ^ 100) (Fin (2 ^ 100)) (Fin (2 ^ 100)) = (Fin 0, Fin 0)"
  by (simp add: clamp_to_max_speed_def sqrtf_def f32_add_def f32_mul_def f32_div_def
      fl_range_def FLT_OVERFLOW_def)

lemma clamp_underflow_example:
  "clamp_to_max_speed (1 / 2 ^ 80) (Fin (1 / 2 ^ 80)) (Fin (1 / 2 ^ 80)) =
     (Fin (1 / 2 ^ 80), Fin (1 / 2 ^ 80))"
  by (simp add: clamp_to_max_speed_def sqrtf_def f32_add_def f32_mul_def
      fl_range_def flush_def FLT_OVERFLOW_def FLT_UNDERFLOW_def)

lemma clamp_underflow_magnitude:
  "\<not> sqrt (1 / 2 ^ 80 * (1 / 2 ^ 80) + 1 / 2 ^ 80 * (1 / 2 ^ 80)) \<le> (1 / 2 ^ 80 :: real)"
proof
  define s :: real where "s = 1 / 2 ^ 80"
  have pos: "0 < s" by (simp add: s_def)
  assume "sqrt (1 / 2 ^ 80 * (1 / 2 ^ 80) + 1 / 2 ^ 80 * (1 / 2 ^ 80)) \<le> (1 / 2 ^ 80 :: real)"
  then have le: "sqrt (s * s + s * s) \<le> s" unfolding s_def .
  have "sqrt (s * s) = s" using pos by simp
  with le have "sqrt (s * s + s * s) \<le> sqrt (s * s)" by simp
  then have "s * s + s * s \<le> s * s" by (simp only: real_sqrt_le_iff)
  then have "s * s \<le> 0" by simp
  moreover have "0 < s * s" using pos by simp
  ultimately show False by simp
qed

subsection \<open>The three instances\<close>

lemma example_unclamped:
  "nca_act_unclamped example_env (example_globals a v) [0] =
     Inr (\<lparr>hidden = [Fin 0], output_buf = [Fin 0, Fin 0],
           rand_state = \<lparr>outcomes = (\<lambda>n. v), drawn = 2\<rparr>\<rparr>, Fin 0, Fin 0)"
proof -
  have "replicate (NCA_OUTPUT_SIZE example_env) (Fin 0) = [Fin 0, Fin 0]"
    by (simp add: example_env_def numeral_2_eq_2)
  moreover have "spec_noise_scale (default_config example_env) = Fin 0"
    by (simp add: spec_noise_scale_zero example_env_def)
  moreover have "RAND_MAX example_env \<noteq> 0" "speed (default_config example_env) = 1"
    by (simp_all add: example_env_def)
  ultimately show ?thesis
    by (simp add: unclamped_eq example_forward noise_term_zero example_source_def
        f32_add_def f32_mul_def)
qed

lemma example_act:
  "nca_act example_env (example_globals a v) [0] =
     Inr (\<lparr>hidden = [Fin 0], output_buf = [Fin 0, Fin 0],
           rand_state = \<lparr>outcomes = (\<lambda>n. v), drawn = 2\<rparr>\<rparr>, Fin 0, Fin 0)"
proof -
  have "speed (default_config example_env) = 1" by (simp add: example_env_def)
  moreover have "clamp_to_max_speed 1 (Fin 0) (Fin 0) = (Fin 0, Fin 0)"
    using flt_order(4) by (subst clamp_normal) simp_all
  ultimately show ?thesis
    by (simp add: nca_act_def example_unclamped)
qed

lemma noisy_scale: "spec_noise_scale (default_config noisy_env) = Fin (100 * exp (- 1))"
proof -
  have a: "f32_mul (Fin (- 100)) (Fin (1 / 100)) = Fin (- 1)"
    by (simp add: f32_mul_def fl_range_normal flt_normal_def FLT_MIN_def FLT_OVERFLOW_def)
  have "flt_normal (exp (- 1))"
    using exp_minus_one by (intro flt_normal_between) linarith+
  then have b: "fl_range (exp (- 1)) = Fin (exp (- 1))"
    by (rule fl_range_normal)
  have "flt_normal (100 * exp (- 1))"
    using exp_minus_one by (intro flt_normal_between) linarith+
  then have c: "f32_mul (Fin 100) (Fin (exp (- 1))) = Fin (100 * exp (- 1))"
    by (simp add: f32_mul_def fl_range_normal)
  show ?thesis
    by (simp add: spec_noise_scale_def DECAY_RATE_def noisy_env_def a b c)
qed

lemma noisy_unclamped:
  "nca_act_unclamped noisy_env (example_globals a 32767) [0] =
     Inr (\<lparr>hidden = [Fin 0], output_buf = [Fin 0, Fin 0],
           rand_state = \<lparr>outcomes = (\<lambda>n. 32767), drawn = 2\<rparr>\<rparr>,
          Fin (50 * exp (- 1)), Fin (50 * exp (- 1)))"
proof -
  have "replicate (NCA_OUTPUT_SIZE noisy_env) (Fin 0) = [Fin 0, Fin 0]"
    by (simp add: noisy_env_def example_env_def numeral_2_eq_2)
  moreover have "RAND_MAX noisy_env = 32767" "speed (default_config noisy_env) = 1"
    by (simp_all add: noisy_env_def example_env_def)
  moreover have n: "flt_normal (50 * exp (- 1))"
    using exp_minus_one by (intro flt_normal_between) linarith+
  then have "noise_term noisy_env 32767 (Fin (100 * exp (- 1))) = Fin (50 * exp (- 1))"
    by (simp add: noise_term_def noisy_env_def example_env_def f32_mul_def fl_range_normal)
  moreover have "f32_add (Fin 0) (Fin (50 * exp (- 1))) = Fin (50 * exp (- 1))"
    using n by (simp add: f32_add_def fl_range_normal)
  ultimately show ?thesis
    by (simp add: unclamped_eq noisy_forward noisy_scale example_source_def f32_mul_def)
qed



section \<open>Claims about the proximity model\<close>

text \<open>
  Claim C3, as amended.  The claim says that for every distance and every maximum
  distance the signal strength lies between 0 and 1 and does not increase with the
  distance.  The code checks neither argument: a negative distance gives a value above
  1, and with a negative maximum distance the value grows with the distance.  What holds:
  for a distance that is not negative and a positive maximum distance the result lies in
  the closed interval from 0 to 1; and for a positive maximum distance the result does
  not increase when the distance increases.
\<close>

theorem nca_rssi_unit_interval_monotone:
  "(0 \<le> d \<and> 0 < m \<longrightarrow> fl_between 0 1 (nca_rssi d m)) \<and>
   (0 < m \<and> d1 \<le> d2 \<longrightarrow> fl_ge (nca_rssi d1 m) (nca_rssi d2 m))"
  by (auto simp: nca_rssi_def divide_simps)

theorem nca_rssi_unit_interval_monotone_witness:
  "(0 :: real) \<le> 4 \<and> (0 :: real) < 10 \<and> fl_between 0 1 (nca_rssi 4 10) \<and>
   (4 :: real) \<le> 12 \<and> fl_ge (nca_rssi 4 10) (nca_rssi 12 10)"
  using nca_rssi_unit_interval_monotone [of 4 10 4 12] by simp

text \<open>
  Claim C3 as stated fails: at distance -5 and maximum distance 10 the result is 1.5,
  outside the interval; and at maximum distance -10 the result at distance -20 is -1,
  below the result 0 at the larger distance -10.
\<close>

theorem nca_rssi_unit_interval_counterexample:
  "\<not> fl_between 0 1 (nca_rssi (- 5) 10) \<and>
   (- 20 :: real) \<le> - 10 \<and> \<not> fl_ge (nca_rssi (- 20) (- 10)) (nca_rssi (- 10) (- 10))"
  by (simp add: nca_rssi_def)

text \<open>
  Claim C5.  The neighbour count over a sequence of distance samples is the number of
  samples strictly below the threshold, so a sample equal to the threshold is not
  counted; over the first \<open>max_neighbors\<close> samples of a longer sequence it is the number
  of those.  Over the samples 1, 2, 3, 4, 5 with threshold 3 the count is
  2, and over the single sample 3 with threshold 3 it is 0.
\<close>

theorem nca_get_neighbor_count_strict:
  "nca_get_neighbor_count distances (int (length distances)) range_threshold =
     Inr (int (length (filter (\<lambda>d. d < range_threshold) distances))) \<and>
   (nat max_neighbors \<le> length distances \<longrightarrow>
      nca_get_neighbor_count distances max_neighbors range_threshold =
        Inr (int (length (filter (\<lambda>d. d < range_threshold)
                            (take (nat max_neighbors) distances))))) \<and>
   nca_get_neighbor_count [1, 2, 3, 4, 5] 5 3 = Inr 2 \<and>
   nca_get_neighbor_count [3] 1 3 = Inr 0"
proof -
  have general: "nca_get_neighbor_count ds m t =
      Inr (int (length (filter (\<lambda>d. d < t) (take (nat m) ds))))"
    if "nat m \<le> length ds" for ds m t
    using neighbor_loop_take [of 0 m ds t 0] that
    by (simp add: nca_get_neighbor_count_def)
  have "nca_get_neighbor_count distances (int (length distances)) range_threshold =
     Inr (int (length (filter (\<lambda>d. d < range_threshold) distances)))"
    by (subst general) simp_all
  moreover have "nca_get_neighbor_count [1, 2, 3, 4, 5] 5 3 = Inr 2"
    by (subst general) simp_all
  moreover have "nca_get_neighbor_count [3] 1 3 = Inr 0"
    by (subst general) simp_all
  ultimately show ?thesis using general by blast
qed

theorem nca_get_neighbor_count_strict_witness:
  "nat 3 \<le> length [1, 3, 2, 0 :: real] \<and> nca_get_neighbor_count [1, 3, 2, 0] 3 3 = Inr 2"
  using nca_get_neighbor_count_strict [of "[1, 3, 2, 0]" 3 3] by simp



section \<open>Claims about the inference engine\<close>

text \<open>
  Claim C2, as amended.  The claim says that every output component lies between -1 and
  1 for every finite input.  A product of an input and a weight can overflow, and two
  products that overflow with opposite signs add up to a NaN, which the hyperbolic
  tangent returns as it is.  What holds: when for every hidden unit the bias and the
  products of inputs and weights together stay below the overflow threshold in absolute
  value, and the weights of the second layer are finite floats, the forward pass returns
  for every input of length \<^verbatim>\<open>NCA_INPUT_SIZE\<close> an output vector whose every component lies
  in the closed interval from -1 to 1.
\<close>

theorem nca_forward_output_range:
  assumes "wf_env env" "wf_globals env g" "length input = NCA_INPUT_SIZE env"
      and "length output = NCA_OUTPUT_SIZE env"
      and "\<forall>j<NCA_HIDDEN_SIZE env. \<bar>b1 env ! j\<bar> +
             (\<Sum>i = 0..<NCA_INPUT_SIZE env. \<bar>input ! i * (w1 env ! i ! j)\<bar>) < FLT_OVERFLOW"
      and "\<forall>i<NCA_HIDDEN_SIZE env. \<forall>j<NCA_OUTPUT_SIZE env. \<bar>w2 env ! i ! j\<bar> < FLT_OVERFLOW"
  shows "\<exists>g' out. nca_forward env g input output = Inr (g', out) \<and>
           length out = NCA_OUTPUT_SIZE env \<and> (\<forall>v \<in> set out. fl_between (- 1) 1 v)"
proof -
  from nca_forward_total [OF assms(1,2,3,4)] obtain g' out where
    r: "nca_forward env g input output = Inr (g', out)" and l: "length out = NCA_OUTPUT_SIZE env"
    by blast
  have "fl_between (- 1) 1 v" if "v \<in> set out" for v
  proof -
    from that obtain k where "k < length out" "v = out ! k" by (auto simp: in_set_conv_nth)
    with nca_forward_between [OF r assms(5,6), of k] l show ?thesis by simp
  qed
  with r l show ?thesis by blast
qed

theorem nca_forward_output_range_witness:
  "wf_env example_env \<and> wf_globals example_env (example_globals 7 5) \<and>
   length [3 :: real] = NCA_INPUT_SIZE example_env \<and>
   length [Fin 3, Fin 4] = NCA_OUTPUT_SIZE example_env \<and>
   (\<exists>g' out. nca_forward example_env (example_globals 7 5) [3] [Fin 3, Fin 4] = Inr (g', out) \<and>
      length out = NCA_OUTPUT_SIZE example_env \<and> (\<forall>v \<in> set out. fl_between (- 1) 1 v))"
proof -
  have l: "length [3 :: real] = NCA_INPUT_SIZE example_env"
    "length [Fin 3, Fin 4] = NCA_OUTPUT_SIZE example_env"
    by (simp_all add: example_env_def)
  have b: "\<forall>j<NCA_HIDDEN_SIZE example_env. \<bar>b1 example_env ! j\<bar> +
      (\<Sum>i = 0..<NCA_INPUT_SIZE example_env. \<bar>[3] ! i * (w1 example_env ! i ! j)\<bar>) < FLT_OVERFLOW"
    by (simp add: example_env_def FLT_OVERFLOW_def)
  have w: "\<forall>i<NCA_HIDDEN_SIZE example_env. \<forall>j<NCA_OUTPUT_SIZE example_env.
      \<bar>w2 example_env ! i ! j\<bar> < FLT_OVERFLOW"
    by (simp add: example_env_def FLT_OVERFLOW_def less_Suc_eq numeral_2_eq_2)
  from nca_forward_output_range [OF example_wf l b w] example_wf l show ?thesis by blast
qed

text \<open>
  Claim C2 as stated fails: with the weights 2 and -2 into one hidden unit and the finite
  input \<open>(2^127, 2^127)\<close> the first product is plus infinity and the second minus
  infinity, the hidden activation is a NaN and so are both outputs.
\<close>

theorem nca_forward_output_range_counterexample:
  "wf_env overflow_env \<and> wf_globals overflow_env (example_globals 7 5) \<and>
   length [2 ^ 127, 2 ^ 127 :: real] = NCA_INPUT_SIZE overflow_env \<and>
   length [Fin 0, Fin 0] = NCA_OUTPUT_SIZE overflow_env \<and>
   nca_forward overflow_env (example_globals 7 5) [2 ^ 127, 2 ^ 127] [Fin 0, Fin 0] =
     Inr (\<lparr>hidden = [NaN], output_buf = [NaN, NaN], rand_state = example_source 5\<rparr>,
          [NaN, NaN]) \<and>
   \<not> fl_between (- 1) 1 NaN"
  unfolding overflow_input_def [symmetric]
  using overflow_wf(1) overflow_wf(2) [of 7 5] overflow_forward [of 7 5 "Fin 0" "Fin 0"]
  by (simp add: overflow_env_def overflow_input_def)

text \<open>
  Claim C8.  The forward pass is deterministic and keeps no state that affects its
  result: whatever the static buffers, the random source and the caller's array hold when
  the call begins, the same input gives the same output vector (or the same fault); and a
  second call on the state the first one left returns the same output and leaves that
  state as it is.
\<close>

theorem nca_forward_deterministic:
  assumes "wf_globals env g" "wf_globals env g'"
      and "length output = NCA_OUTPUT_SIZE env" "length output' = NCA_OUTPUT_SIZE env"
  shows "map_sum id snd (nca_forward env g input output) =
           map_sum id snd (nca_forward env g' input output') \<and>
         (\<forall>g1 out. nca_forward env g input output = Inr (g1, out) \<longrightarrow>
            nca_forward env g1 input output' = Inr (g1, out))"
proof -
  have first: "map_sum id snd (nca_forward env g input output) =
      map_sum id snd (nca_forward env g' input output')"
    unfolding nca_forward_overwrites [OF assms(1,2,3,4), of input]
    by (cases "nca_forward env g input output") auto
  have second: "nca_forward env g1 input output' = Inr (g1, out)"
    if r: "nca_forward env g input output = Inr (g1, out)" for g1 out
  proof -
    have wf1: "wf_globals env g1"
      using nca_forward_wf [OF r] assms(1) by (simp add: wf_globals_def)
    from nca_forward_overwrites [OF assms(1) wf1 assms(3,4), of input] r
    have "nca_forward env g1 input output' = Inr (g1\<lparr>rand_state := rand_state g1\<rparr>, out)"
      by simp
    then show ?thesis by simp
  qed
  from first second show ?thesis by blast
qed

theorem nca_forward_deterministic_witness:
  "wf_globals example_env (example_globals 7 5) \<and> wf_globals example_env (example_globals 9 6) \<and>
   length [Fin 3, Fin 4] = NCA_OUTPUT_SIZE example_env \<and>
   length [Fin 1, Fin 2] = NCA_OUTPUT_SIZE example_env \<and>
   map_sum id snd (nca_forward example_env (example_globals 7 5) [0] [Fin 3, Fin 4]) =
     map_sum id snd (nca_forward example_env (example_globals 9 6) [0] [Fin 1, Fin 2]) \<and>
   nca_forward example_env (example_globals 7 5) [0] [Fin 3, Fin 4] =
     Inr (\<lparr>hidden = [Fin 0], output_buf = [Fin 0, Fin 0], rand_state = example_source 5\<rparr>,
          [Fin 0, Fin 0]) \<and>
   nca_forward example_env
     \<lparr>hidden = [Fin 0], output_buf = [Fin 0, Fin 0], rand_state = example_source 5\<rparr> [0] [Fin 1, Fin 2] =
     Inr (\<lparr>hidden = [Fin 0], output_buf = [Fin 0, Fin 0], rand_state = example_source 5\<rparr>,
          [Fin 0, Fin 0])"
proof -
  have l: "length [Fin 3, Fin 4] = NCA_OUTPUT_SIZE example_env"
    "length [Fin 1, Fin 2] = NCA_OUTPUT_SIZE example_env"
    by (simp_all add: example_env_def)
  from nca_forward_deterministic [OF example_wf(2) [of 7 5] example_wf(2) [of 9 6] l, of "[0]"]
    example_forward [of 7 5 "Fin 3" "Fin 4"] example_wf(2) l
  show ?thesis by blast
qed

section \<open>Claims about the action decoder\<close>




text \<open>
  Claim C4.  There is one number \<open>c\<close>, the float value of
  \<^verbatim>\<open>config.noise * exp(-config.noise * DECAY_RATE)\<close> with \<^verbatim>\<open>DECAY_RATE\<close> = 0.01, such that
  every call of the decoder, whatever the state and the input, computes each component of
  the command before the clamp as the network output times the speed plus the centred
  random sample times \<open>c\<close>.  \<open>c\<close> is fixed by the configured noise alone: no elapsed time
  and no count of calls enters it.  When none of the three operations leaves the normal
  range, \<open>c\<close> is the real number \<open>noise * exp (- noise * 0.01)\<close>.
\<close>

theorem nca_act_noise_scale:
  "\<exists>c. c = f32_mul (Fin (noise (default_config env)))
             (expf (f32_mul (Fin (- noise (default_config env))) (Fin 0.01))) \<and>
        c = spec_noise_scale (default_config env) \<and>
        (flt_normal (- noise (default_config env) * 0.01) \<and>
         flt_normal (exp (- noise (default_config env) * 0.01)) \<and>
         flt_normal (noise (default_config env) * exp (- noise (default_config env) * 0.01)) \<longrightarrow>
         c = Fin (noise (default_config env) * exp (- noise (default_config env) * 0.01))) \<and>
        (\<forall>g input.
           nca_act_unclamped env g input =
             (case nca_forward env g input (replicate (NCA_OUTPUT_SIZE env) (Fin 0)) of
                Inl e \<Rightarrow> Inl e
              | Inr (g1, output) \<Rightarrow>
                  if 1 < length output then
                    Inr (g1\<lparr>rand_state :=
                              (rand_state g1)\<lparr>drawn := drawn (rand_state g1) + 2\<rparr>\<rparr>,
                         f32_add (f32_mul (output ! 0) (Fin (speed (default_config env))))
                           (f32_mul
                              (fl_sub
                                 (fl_div
                                    (Fin (real_of_int
                                       (outcomes (rand_state g1) (drawn (rand_state g1)))))
                                    (Fin (real_of_int (RAND_MAX env))))
                                 (Fin 0.5)) c),
                         f32_add (f32_mul (output ! 1) (Fin (speed (default_config env))))
                           (f32_mul
                              (fl_sub
                                 (fl_div
                                    (Fin (real_of_int
                                       (outcomes (rand_state g1) (Suc (drawn (rand_state g1))))))
                                    (Fin (real_of_int (RAND_MAX env))))
                                 (Fin 0.5)) c))
                  else Inl OutOfBounds))"
proof -
  let ?n = "noise (default_config env)"
  have formula: "spec_noise_scale (default_config env) =
      f32_mul (Fin ?n) (expf (f32_mul (Fin (- ?n)) (Fin 0.01)))"
    by (simp add: spec_noise_scale_def DECAY_RATE_def)
  have exact: "spec_noise_scale (default_config env) = Fin (?n * exp (- ?n * 0.01))"
    if "flt_normal (- ?n * 0.01)" "flt_normal (exp (- ?n * 0.01))"
      "flt_normal (?n * exp (- ?n * 0.01))"
    unfolding formula f32_mul_def using that by (simp add: fl_range_normal)
  have calls: "nca_act_unclamped env g input =
      (case nca_forward env g input (replicate (NCA_OUTPUT_SIZE env) (Fin 0)) of
         Inl e \<Rightarrow> Inl e
       | Inr (g1, output) \<Rightarrow>
           if 1 < length output then
             Inr (g1\<lparr>rand_state := (rand_state g1)\<lparr>drawn := drawn (rand_state g1) + 2\<rparr>\<rparr>,
                  f32_add (f32_mul (output ! 0) (Fin (speed (default_config env))))
                    (f32_mul
                       (fl_sub
                          (fl_div
                             (Fin (real_of_int (outcomes (rand_state g1) (drawn (rand_state g1)))))
                             (Fin (real_of_int (RAND_MAX env))))
                          (Fin 0.5)) (spec_noise_scale (default_config env))),
                  f32_add (f32_mul (output ! 1) (Fin (speed (default_config env))))
                    (f32_mul
                       (fl_sub
                          (fl_div
                             (Fin (real_of_int
                                (outcomes (rand_state g1) (Suc (drawn (rand_state g1))))))
                             (Fin (real_of_int (RAND_MAX env))))
                          (Fin 0.5)) (spec_noise_scale (default_config env))))
           else Inl OutOfBounds)" for g input
    using unclamped_eq [of env g input] by (simp only: noise_term_def)
  show ?thesis
    by (rule exI [of _ "spec_noise_scale (default_config env)"])
      (use formula exact calls in blast)
qed

theorem nca_act_noise_scale_witness:
  "flt_normal (- noise (default_config noisy_env) * 0.01) \<and>
   flt_normal (exp (- noise (default_config noisy_env) * 0.01)) \<and>
   flt_normal (noise (default_config noisy_env) * exp (- noise (default_config noisy_env) * 0.01)) \<and>
   spec_noise_scale (default_config noisy_env) =
     Fin (noise (default_config noisy_env) * exp (- noise (default_config noisy_env) * 0.01)) \<and>
   noise (default_config noisy_env) * exp (- noise (default_config noisy_env) * 0.01) =
     100 * exp (- 1) \<and>
   nca_act_unclamped noisy_env (example_globals 7 32767) [0] =
     Inr (\<lparr>hidden = [Fin 0], output_buf = [Fin 0, Fin 0],
           rand_state = \<lparr>outcomes = (\<lambda>n. 32767), drawn = 2\<rparr>\<rparr>,
          Fin (50 * exp (- 1)), Fin (50 * exp (- 1)))"
proof -
  have n: "noise (default_config noisy_env) = 100" by (simp add: noisy_env_def)
  have a: "flt_normal (- noise (default_config noisy_env) * 0.01)"
    unfolding n by (simp add: flt_normal_def FLT_MIN_def FLT_OVERFLOW_def)
  have e: "(- 100 * 0.01 :: real) = - 1" by simp
  have b: "flt_normal (exp (- noise (default_config noisy_env) * 0.01))"
    unfolding n e using exp_minus_one by (intro flt_normal_between) linarith+
  have c: "flt_normal (noise (default_config noisy_env) *
      exp (- noise (default_config noisy_env) * 0.01))"
    unfolding n e using exp_minus_one by (intro flt_normal_between) linarith+
  from nca_act_noise_scale [of noisy_env] a b c
  have "spec_noise_scale (default_config noisy_env) =
     Fin (noise (default_config noisy_env) * exp (- noise (default_config noisy_env) * 0.01))"
    by metis
  moreover have "noise (default_config noisy_env) *
      exp (- noise (default_config noisy_env) * 0.01) = 100 * exp (- 1)"
    unfolding n e by simp
  ultimately show ?thesis using a b c noisy_unclamped [of 7] by (intro conjI)
qed

text \<open>
  Claim C7.  With \<^verbatim>\<open>config.noise\<close> equal to 0 the command that \<^verbatim>\<open>nca_act\<close> returns for a
  given input does not depend on the state of the random source; nor does it depend on
  what the static buffers hold when the call begins.
\<close>

theorem nca_act_deterministic_without_noise:
  assumes "noise (default_config env) = 0"
  shows "map_sum id snd (nca_act env (g\<lparr>rand_state := r\<rparr>) input) =
           map_sum id snd (nca_act env (g\<lparr>rand_state := r'\<rparr>) input) \<and>
         (wf_globals env g \<and> wf_globals env g' \<longrightarrow>
            map_sum id snd (nca_act env g input) = map_sum id snd (nca_act env g' input))"
proof -
  have "map_sum id snd (nca_act env (g\<lparr>rand_state := r\<rparr>) input) =
        map_sum id snd (nca_act env (g\<lparr>rand_state := r'\<rparr>) input)"
    unfolding nca_act_values
    using unclamped_rand_state_noiseless [OF assms, where g = g and r = r and input = input]
      unclamped_rand_state_noiseless [OF assms, where g = g and r = r' and input = input]
    by simp
  moreover have "map_sum id snd (nca_act env g input) = map_sum id snd (nca_act env g' input)"
    if "wf_globals env g" "wf_globals env g'"
    unfolding nca_act_values using unclamped_noiseless_state [OF assms that, of input] by simp
  ultimately show ?thesis by blast
qed

theorem nca_act_deterministic_without_noise_witness:
  "noise (default_config example_env) = 0 \<and>
   example_globals 7 5 = (example_globals 7 0)\<lparr>rand_state := example_source 5\<rparr> \<and>
   example_globals 7 11 = (example_globals 7 0)\<lparr>rand_state := example_source 11\<rparr> \<and>
   map_sum id snd (nca_act example_env (example_globals 7 5) [0]) =
     map_sum id snd (nca_act example_env (example_globals 7 11) [0]) \<and>
   wf_globals example_env (example_globals 7 5) \<and> wf_globals example_env (example_globals 9 6) \<and>
   map_sum id snd (nca_act example_env (example_globals 7 5) [0]) =
     map_sum id snd (nca_act example_env (example_globals 9 6) [0])"
proof -
  have n: "noise (default_config example_env) = 0" by (simp add: example_env_def)
  have g: "example_globals 7 v = (example_globals 7 0)\<lparr>rand_state := example_source v\<rparr>" for v
    by (simp add: example_globals_def)
  have "map_sum id snd (nca_act example_env (example_globals 7 5) [0]) =
        map_sum id snd (nca_act example_env (example_globals 7 11) [0])"
    using nca_act_deterministic_without_noise
      [OF n, where g = "example_globals 7 0" and r = "example_source 5" and input = "[0]"
        and r' = "example_source 11"]
    by (simp only: g [symmetric])
  moreover have "map_sum id snd (nca_act example_env (example_globals 7 5) [0]) =
        map_sum id snd (nca_act example_env (example_globals 9 6) [0])"
    using nca_act_deterministic_without_noise
      [OF n, where g = "example_globals 7 5" and g' = "example_globals 9 6" and input = "[0]"]
      example_wf(2)
    by blast
  ultimately show ?thesis
    using n g [of 5] g [of 11] example_wf(2) [of 7 5] example_wf(2) [of 9 6] by (intro conjI)
qed

text \<open>
  Claim C10.  Every call of \<^verbatim>\<open>nca_act\<close> that returns has called \<^verbatim>\<open>rand()\<close> exactly twice:
  the random source has advanced by two draws, whatever the input and the configuration,
  also with noise 0.  And the call returns for every configuration when the arrays have
  their declared sizes.
\<close>

theorem nca_act_draws_two:
  "(nca_act env g input = Inr (g', dx, dy) \<longrightarrow>
      rand_state g' = (rand_state g)\<lparr>drawn := drawn (rand_state g) + 2\<rparr>) \<and>
   (wf_env env \<and> wf_globals env g \<and> length input = NCA_INPUT_SIZE env \<and>
    2 \<le> NCA_OUTPUT_SIZE env \<longrightarrow> (\<exists>g1 dx1 dy1. nca_act env g input = Inr (g1, dx1, dy1)))"
proof -
  have "rand_state g' = (rand_state g)\<lparr>drawn := drawn (rand_state g) + 2\<rparr>"
    if "nca_act env g input = Inr (g', dx, dy)"
    using that
    by (auto simp: nca_act_def unclamped_eq split: sum.splits if_splits prod.splits
        dest: nca_forward_keeps_rand_state)
  then show ?thesis using nca_act_returns by blast
qed

theorem nca_act_draws_two_witness:
  "nca_act example_env (example_globals 7 5) [0] =
     Inr (\<lparr>hidden = [Fin 0], output_buf = [Fin 0, Fin 0],
           rand_state = \<lparr>outcomes = (\<lambda>n. 5), drawn = 2\<rparr>\<rparr>, Fin 0, Fin 0) \<and>
   rand_state \<lparr>hidden = [Fin 0], output_buf = [Fin 0, Fin 0],
           rand_state = \<lparr>outcomes = (\<lambda>n. 5), drawn = 2\<rparr>\<rparr> =
     (rand_state (example_globals 7 5))\<lparr>drawn := drawn (rand_state (example_globals 7 5)) + 2\<rparr> \<and>
   wf_env example_env \<and> wf_globals example_env (example_globals 7 5) \<and>
   length [0 :: real] = NCA_INPUT_SIZE example_env \<and> 2 \<le> NCA_OUTPUT_SIZE example_env \<and>
   (\<exists>g1 dx1 dy1. nca_act example_env (example_globals 7 5) [0] = Inr (g1, dx1, dy1))"
proof -
  have l: "length [0 :: real] = NCA_INPUT_SIZE example_env" "2 \<le> NCA_OUTPUT_SIZE example_env"
    by (simp_all add: example_env_def)
  from nca_act_draws_two [of example_env "example_globals 7 5" "[0]"
      "\<lparr>hidden = [Fin 0], output_buf = [Fin 0, Fin 0], rand_state = \<lparr>outcomes = (\<lambda>n. 5), drawn = 2\<rparr>\<rparr>"
      "Fin 0" "Fin 0"]
    example_act [of 7 5] example_wf l
  show ?thesis by blast
qed

section \<open>Claim about totality\<close>



end
